theory Spec2Isabelle
  imports Complex_Main "HOL-Library.Log_Nat" "HOL-Library.Word" "HOL-Library.Multiset"
begin

chapter \<open>The program: thermal\_processor.py\<close>

text \<open>
  The definitions of this chapter follow \<^verbatim>\<open>src/thermal_processor.py\<close> function by
  function. Python and NumPy floats are modelled in two ways, and each section says which:
  \<^item> as real numbers, where a claim is about order and bounds that rounding preserves
    (configuration values, scores, thresholds);
  \<^item> as binary32 and binary64 values with every rounding written out (\<open>fl32\<close>, \<open>fl64\<close>),
    where a claim is about the exact values computed (the colour ramp, the 8-bit round
    trip, the temperatures).
  NaN and the infinities are outside both models.
\<close>

section \<open>Python and NumPy primitives\<close>

text \<open>\<^verbatim>\<open>np.clip(x, lo, hi)\<close> is \<^verbatim>\<open>minimum(maximum(x, lo), hi)\<close>.\<close>

definition np_clip :: "real \<Rightarrow> real \<Rightarrow> real \<Rightarrow> real" where
  "np_clip x lo hi = min (max x lo) hi"

text \<open>\<^verbatim>\<open>int(x)\<close> of a float truncates towards zero.\<close>

definition py_int :: "real \<Rightarrow> int" where
  "py_int x = (if 0 \<le> x then \<lfloor>x\<rfloor> else \<lceil>x\<rceil>)"

text \<open>
  \<^verbatim>\<open>x ** g\<close> for a base that was clipped to \<open>[0, 1]\<close> first. NumPy gives \<open>0 ** 0 = 1\<close>;
  \<open>0 ** g\<close> for a negative \<open>g\<close> is \<open>inf\<close> there, which a real number cannot carry: the
  model's value at that point (\<open>0\<close>) is not used by any theorem below.
\<close>

definition np_power :: "real \<Rightarrow> real \<Rightarrow> real" where
  "np_power x g = (if g = 0 then 1 else x powr g)"

section \<open>Binary floating point\<close>

text \<open>
  NumPy computes on \<^verbatim>\<open>float32\<close> data in binary32: an operation between a \<^verbatim>\<open>float32\<close>
  array (or scalar) and a Python float converts the Python float to binary32 and rounds
  the result to binary32 (the promotion rules of NumPy 2). Python's own floats are
  binary64. A floating-point value is modelled as the real number it denotes. \<open>fl32 x\<close> is
  the binary32 value nearest to \<open>x\<close>, ties to the even significand: 24 significant bits, the
  subnormal grid \<open>2 powi (- 149)\<close>; \<open>fl64 x\<close> is the same for binary64: 53 bits, the grid
  \<open>2 powi (- 1074)\<close>. Overflow to infinity is not modelled.
\<close>

definition round_half_even :: "real \<Rightarrow> int" where
  "round_half_even x =
     (let f = \<lfloor>x\<rfloor>; r = x - of_int f
      in if r < 1 / 2 then f else if 1 / 2 < r then f + 1 else if even f then f else f + 1)"

text \<open>The exponent \<open>e\<close> with \<open>2 powi e \<le> \<bar>x\<bar> < 2 powi (e + 1)\<close>, for \<open>x \<noteq> 0\<close>.\<close>

definition binade :: "real \<Rightarrow> int" where
  "binade x =
     (if 1 \<le> \<bar>x\<bar> then bitlen \<lfloor>\<bar>x\<bar>\<rfloor> - 1 else - bitlen (\<lceil>1 / \<bar>x\<bar>\<rceil> - 1))"

definition fl32 :: "real \<Rightarrow> real" where
  "fl32 x =
     (if x = 0 then 0
      else let q = max (binade x - 23) (- 149)
           in of_int (round_half_even (x / 2 powi q)) * 2 powi q)"

text \<open>
  The same rounding for a format with \<open>p + 1\<close> significant bits and the subnormal grid
  \<open>2 powi emin\<close>; \<open>fl32\<close> is \<open>round_bin 23 (- 149)\<close>.
\<close>

definition round_bin :: "nat \<Rightarrow> int \<Rightarrow> real \<Rightarrow> real" where
  "round_bin p emin x =
     (if x = 0 then 0
      else let q = max (binade x - int p) emin
           in of_int (round_half_even (x / 2 powi q)) * 2 powi q)"

definition fl64 :: "real \<Rightarrow> real" where
  "fl64 x = round_bin 52 (- 1074) x"

section \<open>Command line (parse\_args)\<close>

datatype stat_tag = StatAvg | StatMax

text \<open>
  The namespace that \<^verbatim>\<open>argparse\<close> returns: one field per option, the floats as reals.
\<close>

record args =
  arg_input :: string
  arg_output :: string
  arg_pLow :: real
  arg_pHigh :: real
  arg_gamma :: real
  arg_alpha :: real
  arg_stat :: stat_tag
  arg_ambient :: real
  arg_maxC :: real
  arg_ema :: real
  arg_summary_json :: "string option"
  arg_preview :: bool
  arg_no_overlay :: bool

text \<open>The namespace of a command line that gives the two positional paths only.\<close>

definition default_args :: "string \<Rightarrow> string \<Rightarrow> args" where
  "default_args inp outp =
     \<lparr>arg_input = inp, arg_output = outp, arg_pLow = 0.80, arg_pHigh = 0.98,
      arg_gamma = 1.2, arg_alpha = 0.6, arg_stat = StatAvg, arg_ambient = 22,
      arg_maxC = 120, arg_ema = 0, arg_summary_json = None, arg_preview = False,
      arg_no_overlay = False\<rparr>"

text \<open>
  Lines 139--151: what \<^verbatim>\<open>parse_args\<close> does to the namespace after
  \<^verbatim>\<open>parse_known_args\<close>. Only \<open>pLow\<close>, \<open>pHigh\<close>, \<open>alpha\<close> and \<open>ema\<close> are assigned.
\<close>

definition parse_args :: "args \<Rightarrow> args" where
  "parse_args ns =
     (let pLow = np_clip (arg_pLow ns) 0 0.999;
          pHigh0 = np_clip (arg_pHigh ns) 0 0.999;
          pHigh = (if pHigh0 \<le> pLow then min (pLow + 0.01) 0.999 else pHigh0);
          alpha = np_clip (arg_alpha ns) 0 1;
          ema = np_clip (arg_ema ns) 0 1
      in ns\<lparr>arg_pLow := pLow, arg_pHigh := pHigh, arg_alpha := alpha, arg_ema := ema\<rparr>)"

section \<open>Thermal model (heat\_score, score\_to\_temp)\<close>

text \<open>
  Lines 166--184 for one pixel of a BGR \<^verbatim>\<open>uint8\<close> frame (three 8-bit words); reals.
\<close>

definition heat_score :: "8 word \<times> 8 word \<times> 8 word \<Rightarrow> real" where
  "heat_score px =
     (case px of (b8, g8, r8) \<Rightarrow>
        let b = real (unat b8) / 255;
            g = real (unat g8) / 255;
            r = real (unat r8) / 255;
            luma = 0.2126 * r + 0.7152 * g + 0.0722 * b;
            red_dom = r / (g + b + 1 / 10 ^ 4);
            warm_boost = max (r - max g b) 0;
            cmax = max (max r g) b;
            cmin = min (min r g) b;
            sat = (cmax - cmin) / (cmax + 1 / 10 ^ 6);
            score = luma * (0.5 + 0.5 * sat) * (0.5 + 0.5 * red_dom) + warm_boost
        in np_clip score 0 1)"

text \<open>
  Lines 187--198, on a scalar score. \<open>ambient\<close>, \<open>maxC\<close> and \<open>g\<close> are the Python floats of the
  namespace. \<^verbatim>\<open>np.asarray(score, dtype=np.float32)\<close> rounds the score to binary32; the
  clip and the power work in binary32, the exponent converted to binary32 (the power is
  taken as the correctly rounded one); \<^verbatim>\<open>float(maxC) - float(ambient)\<close> is a binary64
  difference, which the product with \<open>sc\<close> converts to binary32; the product and the sum
  with \<open>ambient\<close> are binary32 operations.
\<close>

definition score_to_temp :: "real \<Rightarrow> real \<Rightarrow> real \<Rightarrow> real \<Rightarrow> real" where
  "score_to_temp score ambient maxC g =
     (let score_arr = fl32 score;
          sc = fl32 (np_power (np_clip score_arr 0 1) (fl32 g));
          temp = fl32 (fl32 ambient + fl32 (fl32 (fl64 (maxC - ambient)) * sc))
      in temp)"

section \<open>Colour map (build\_colormap)\<close>

text \<open>
  Lines 212--239 for one pixel, from its gamma-corrected value \<open>tg\<close> (a binary32 value).
  The three masks \<open>seg1\<close>, \<open>seg2\<close>, \<open>seg3\<close> are disjoint and cover every number, so the
  masked assignments are a case distinction; each segment's formula is a function of its own.
  The literals \<open>0.33\<close>, \<open>0.66\<close> and \<open>0.34\<close> meet a \<^verbatim>\<open>float32\<close> array and are rounded first.
\<close>

definition seg1_rgb :: "real \<Rightarrow> real \<times> real \<times> real" where
  "seg1_rgb tg = (let u1 = fl32 (tg / fl32 0.33) in (0, u1, 1))"

definition seg2_rgb :: "real \<Rightarrow> real \<times> real \<times> real" where
  "seg2_rgb tg = (let u2 = fl32 (fl32 (tg - fl32 0.33) / fl32 0.33) in (u2, 1, fl32 (1 - u2)))"

definition seg3_rgb :: "real \<Rightarrow> real \<times> real \<times> real" where
  "seg3_rgb tg = (let u3 = fl32 (fl32 (tg - fl32 0.66) / fl32 0.34) in (1, fl32 (1 - u3), 0))"

definition ramp :: "real \<Rightarrow> real \<times> real \<times> real" where
  "ramp tg =
     (if tg < fl32 0.33 then seg1_rgb tg
      else if tg < fl32 0.66 then seg2_rgb tg
      else seg3_rgb tg)"

text \<open>
  The whole function on an array \<open>t\<close>. The binary32 power \<^verbatim>\<open>**\<close> is NumPy's and is the
  parameter \<open>pw\<close>. A pixel of the result is \<open>((r, g, b), alpha)\<close>.
\<close>

definition build_colormap ::
  "(real \<Rightarrow> real \<Rightarrow> real) \<Rightarrow> real list list \<Rightarrow> real \<Rightarrow> real \<Rightarrow> ((real \<times> real \<times> real) \<times> real) list list" where
  "build_colormap pw t g alpha_max =
     map (map (\<lambda>v. let tg = pw (np_clip v 0 1) g
                     in (ramp tg, np_clip (fl32 (fl32 alpha_max * tg)) 0 1))) t"

section \<open>Compositor (process\_video, lines 439--450)\<close>

text \<open>
  A frame is rows of pixels, a pixel three \<^verbatim>\<open>uint8\<close> channels in the order B, G, R.
  \<^verbatim>\<open>astype(np.float32)\<close> of a \<^verbatim>\<open>uint8\<close> is exact; \<^verbatim>\<open>astype(np.uint8)\<close> of a float in
  \<open>[0, 255]\<close> truncates.
\<close>

type_synonym pixel_u8 = "8 word \<times> 8 word \<times> 8 word"

definition astype_uint8 :: "real \<Rightarrow> 8 word" where
  "astype_uint8 x = word_of_int (py_int x)"

text \<open>One channel: \<open>c\<close> of the frame, \<open>heat\<close> of the colour map, opacity \<open>a\<close>.\<close>

definition compose_channel :: "bool \<Rightarrow> 8 word \<Rightarrow> real \<Rightarrow> real \<Rightarrow> 8 word" where
  "compose_channel no_overlay c heat a =
     (let frame_f = fl32 (real (unat c) / 255);
          out_frame = (if no_overlay then frame_f
                       else fl32 (fl32 (frame_f * fl32 (1 - a)) + fl32 (heat * a)))
      in astype_uint8 (np_clip (fl32 (out_frame * 255)) 0 255))"

text \<open>\<^verbatim>\<open>heat_bgr = heat_rgb[:, :, ::-1]\<close>: the blue channel of the frame meets \<open>b_h\<close>.\<close>

definition compose_pixel :: "bool \<Rightarrow> pixel_u8 \<Rightarrow> (real \<times> real \<times> real) \<times> real \<Rightarrow> pixel_u8" where
  "compose_pixel no_overlay px cm =
     (case (px, cm) of ((b, g, r), ((r_h, g_h, b_h), a)) \<Rightarrow>
        (compose_channel no_overlay b b_h a,
         compose_channel no_overlay g g_h a,
         compose_channel no_overlay r r_h a))"

text \<open>The colour map has the frame's shape; pixel \<open>(i, j)\<close> of the frame meets its pixel \<open>(i, j)\<close>.\<close>

definition compose_frame ::
  "bool \<Rightarrow> pixel_u8 list list \<Rightarrow> ((real \<times> real \<times> real) \<times> real) list list \<Rightarrow> pixel_u8 list list" where
  "compose_frame no_overlay frame cmap =
     map (\<lambda>(i, row). map (\<lambda>(j, px). compose_pixel no_overlay px (cmap ! i ! j)) (enumerate 0 row))
       (enumerate 0 frame)"

section \<open>Dynamic range normalizer (process\_video, lines 404--435)\<close>

text \<open>
  Reals. \<open>flat\<close> is the smoothed score map \<^verbatim>\<open>heat_used\<close>, flattened row by row. The
  sum \<open>p_low_val + 1e-6\<close> is a double-precision sum in the source; scores lie in \<open>[0, 1]\<close>,
  where it is above \<open>p_low_val\<close> as the real sum is.
\<close>

definition percentile_thresholds :: "real \<Rightarrow> real \<Rightarrow> real list \<Rightarrow> real \<times> real" where
  "percentile_thresholds pLow pHigh flat =
     (let (p_low_val, p_high_val0) =
            (if 0 < length flat then
               (let flat_sorted = sort flat;
                    n = int (length flat_sorted);
                    idx_low0 = py_int (pLow * real_of_int (n - 1));
                    idx_high0 = py_int (pHigh * real_of_int (n - 1));
                    idx_low = max 0 (min idx_low0 (n - 1));
                    idx_high = max 0 (min idx_high0 (n - 1))
                in (flat_sorted ! nat idx_low, flat_sorted ! nat idx_high))
             else (0, 1));
          p_high_val = (if p_high_val0 \<le> p_low_val then p_low_val + 1 / 10 ^ 6 else p_high_val0)
      in (p_low_val, p_high_val))"

definition normalize_heat :: "real list list \<Rightarrow> real \<Rightarrow> real \<Rightarrow> real list list" where
  "normalize_heat heat_used p_low_val p_high_val =
     map (map (\<lambda>v. np_clip ((v - p_low_val) / (p_high_val - p_low_val)) 0 1)) heat_used"

section \<open>Hotspots (find\_hotspots\_from\_thr)\<close>

record hotspot =
  hs_x :: int
  hs_y :: int
  hs_w :: int
  hs_h :: int
  hs_pixels :: int
  hs_meanScore :: real
  hs_tempC :: real

text \<open>
  \<^verbatim>\<open>cv2.connectedComponentsWithStats\<close> is OpenCV's. Its result enters the model as the
  list \<open>comps\<close>: for each label \<open>1, 2, \<dots>\<close> in turn, the \<open>(row, column)\<close> positions that carry
  the label. \<open>labelled\<close> is what OpenCV guarantees of it: a component is not empty and its
  positions are pixels of the frame where the mask is set.
\<close>

type_synonym pixel_pos = "nat \<times> nat"

definition labelled :: "real list list \<Rightarrow> real \<Rightarrow> pixel_pos list list \<Rightarrow> bool" where
  "labelled heat_map thr comps =
     list_all (\<lambda>ps. ps \<noteq> [] \<and>
        list_all (\<lambda>(r, c). r < length heat_map \<and> c < length (heat_map ! r) \<and> thr \<le> heat_map ! r ! c) ps)
       comps"

text \<open>
  The row \<^verbatim>\<open>stats[label]\<close> of a component, as OpenCV documents it: leftmost column, topmost
  row, width and height of the bounding box, number of pixels.
\<close>

definition cc_stats :: "pixel_pos list \<Rightarrow> int \<times> int \<times> int \<times> int \<times> int" where
  "cc_stats ps =
     (if ps = [] then (0, 0, 0, 0, 0)
      else let rows = set (map fst ps); cols = set (map snd ps)
           in (int (Min cols), int (Min rows),
               int (Max cols) - int (Min cols) + 1, int (Max rows) - int (Min rows) + 1,
               int (length ps)))"

text \<open>\<^verbatim>\<open>H, W = heat_map.shape\<close> and \<^verbatim>\<open>np.count_nonzero\<close>.\<close>

definition shape :: "'a list list \<Rightarrow> nat \<times> nat" where
  "shape m = (length m, (case m of [] \<Rightarrow> 0 | row # _ \<Rightarrow> length row))"

definition count_nonzero :: "bool list list \<Rightarrow> nat" where
  "count_nonzero m = length (filter (\<lambda>b. b) (concat m))"

text \<open>The two area bounds (lines 281--283).\<close>

definition min_area :: "nat \<Rightarrow> real \<Rightarrow> int" where
  "min_area total_px min_frac = max 1 (py_int (real total_px * min_frac))"

definition max_area :: "nat \<Rightarrow> real \<Rightarrow> real \<Rightarrow> int" where
  "max_area total_px min_frac max_frac =
     max (min_area total_px min_frac) (py_int (real total_px * max_frac))"

text \<open>The dictionary that the loop appends for a component that passed the filter (lines 291--309).\<close>

definition make_hotspot :: "real list list \<Rightarrow> real \<Rightarrow> real \<Rightarrow> real \<Rightarrow> pixel_pos list \<Rightarrow> hotspot" where
  "make_hotspot heat_map ambient maxC g ps =
     (case cc_stats ps of (x, y, w, h, area) \<Rightarrow>
        let comp_scores = map (\<lambda>(r, c). heat_map ! r ! c) ps;
            mean_score = sum_list comp_scores / real (length comp_scores);
            temp_val = score_to_temp mean_score ambient maxC g
        in \<lparr>hs_x = x, hs_y = y, hs_w = w, hs_h = h, hs_pixels = area,
            hs_meanScore = mean_score, hs_tempC = temp_val\<rparr>)"

text \<open>The loop over the labels (lines 286--309).\<close>

fun hotspot_loop ::
  "real list list \<Rightarrow> real \<Rightarrow> real \<Rightarrow> real \<Rightarrow> int \<Rightarrow> int \<Rightarrow> pixel_pos list list \<Rightarrow> hotspot list" where
  "hotspot_loop heat_map ambient maxC g lo hi [] = []"
| "hotspot_loop heat_map ambient maxC g lo hi (ps # rest) =
     (case cc_stats ps of (x, y, w, h, area) \<Rightarrow>
        if area < lo \<or> hi < area then hotspot_loop heat_map ambient maxC g lo hi rest
        else if length (map (\<lambda>(r, c). heat_map ! r ! c) ps) = 0
          then hotspot_loop heat_map ambient maxC g lo hi rest
        else make_hotspot heat_map ambient maxC g ps
               # hotspot_loop heat_map ambient maxC g lo hi rest)"

text \<open>
  \<^verbatim>\<open>list.sort(key=..., reverse=True)\<close> is stable: descending by the key, equal keys in
  their original order. That is the stable ascending sort by the negated key.
\<close>

definition sort_pixels_desc :: "('a hotspot_scheme) list \<Rightarrow> ('a hotspot_scheme) list" where
  "sort_pixels_desc hs = sort_key (\<lambda>b. - hs_pixels b) hs"

definition find_hotspots_from_thr ::
  "pixel_pos list list \<Rightarrow> real list list \<Rightarrow> real \<Rightarrow> real \<Rightarrow> real \<Rightarrow> real \<Rightarrow> real \<Rightarrow> real \<Rightarrow> nat
     \<Rightarrow> hotspot list" where
  "find_hotspots_from_thr comps heat_map thr ambient maxC g min_frac max_frac max_boxes =
     (case shape heat_map of (H, W) \<Rightarrow>
        let thr_mask = map (map (\<lambda>v. thr \<le> v)) heat_map
        in if count_nonzero thr_mask = 0 then []
           else let total_px = H * W;
                    lo = min_area total_px min_frac;
                    hi = max_area total_px min_frac max_frac;
                    hotspots = hotspot_loop heat_map ambient maxC g lo hi comps
                in take max_boxes (sort_pixels_desc hotspots))"

section \<open>Summary (build\_summary)\<close>

text \<open>A hotspot of the run-wide list: the detector's dictionary with its frame and time.\<close>

record run_hotspot = hotspot +
  hs_frameIdx :: int
  hs_tSec :: real

definition with_time :: "hotspot \<Rightarrow> nat \<Rightarrow> real \<Rightarrow> run_hotspot" where
  "with_time h frame_idx fps =
     \<lparr>hs_x = hs_x h, hs_y = hs_y h, hs_w = hs_w h, hs_h = hs_h h, hs_pixels = hs_pixels h,
      hs_meanScore = hs_meanScore h, hs_tempC = hs_tempC h,
      hs_frameIdx = int frame_idx, hs_tSec = real frame_idx / fps\<rparr>"

record summary =
  sm_file :: string
  sm_width :: int
  sm_height :: int
  sm_framesUsed :: nat
  sm_durationSec :: real
  sm_stat :: stat_tag
  sm_percentileLow :: real
  sm_percentileHigh :: real
  sm_ambientC :: real
  sm_maxC :: real
  sm_gamma :: real
  sm_minHotspotTempC :: "real option"
  sm_maxHotspotTempC :: "real option"
  sm_hotspots :: "run_hotspot list"

text \<open>
  Python's \<^verbatim>\<open>min\<close> and \<^verbatim>\<open>max\<close> of a list: a scan that keeps the first extreme element;
  \<open>None\<close> stands for the \<^verbatim>\<open>ValueError\<close> on an empty list.
\<close>

fun min_scan :: "real \<Rightarrow> real list \<Rightarrow> real" where
  "min_scan m [] = m"
| "min_scan m (x # xs) = min_scan (if x < m then x else m) xs"

fun max_scan :: "real \<Rightarrow> real list \<Rightarrow> real" where
  "max_scan m [] = m"
| "max_scan m (x # xs) = max_scan (if m < x then x else m) xs"

definition py_min :: "real list \<Rightarrow> real option" where
  "py_min xs = (case xs of [] \<Rightarrow> None | x # rest \<Rightarrow> Some (min_scan x rest))"

definition py_max :: "real list \<Rightarrow> real option" where
  "py_max xs = (case xs of [] \<Rightarrow> None | x # rest \<Rightarrow> Some (max_scan x rest))"

text \<open>
  \<^verbatim>\<open>os.path.basename\<close>: what follows the last slash. In \<^verbatim>\<open>build_summary\<close> every
  accumulated hotspot carries its \<open>tempC\<close>, so the default of \<^verbatim>\<open>h.get("tempC", 0.0)\<close> is
  never taken.
\<close>

definition basename :: "string \<Rightarrow> string" where
  "basename path = rev (takeWhile (\<lambda>c. c \<noteq> CHR ''/'') (rev path))"

definition build_summary ::
  "args \<Rightarrow> int \<Rightarrow> int \<Rightarrow> nat \<Rightarrow> real \<Rightarrow> run_hotspot list \<Rightarrow> summary" where
  "build_summary a width height frames_used duration_sec hotspots =
     (let hotspots_sorted = sort_pixels_desc hotspots;
          top_hotspots = take 40 hotspots_sorted;
          temps = map hs_tempC hotspots;
          min_temp = (if hotspots \<noteq> [] then py_min temps else None);
          max_temp = (if hotspots \<noteq> [] then py_max temps else None)
      in \<lparr>sm_file = basename (arg_input a), sm_width = width, sm_height = height,
          sm_framesUsed = frames_used, sm_durationSec = duration_sec, sm_stat = arg_stat a,
          sm_percentileLow = arg_pLow a, sm_percentileHigh = arg_pHigh a,
          sm_ambientC = arg_ambient a, sm_maxC = arg_maxC a, sm_gamma = arg_gamma a,
          sm_minHotspotTempC = min_temp, sm_maxHotspotTempC = max_temp,
          sm_hotspots = top_hotspots\<rparr>)"

section \<open>Run (import guard, process\_video, main)\<close>

text \<open>
  What the run meets outside the program: whether \<^verbatim>\<open>import cv2\<close> succeeds, whether the
  input path exists, whether the decoder and the encoder open, whether the directories of
  the output and of the summary exist and, if not, whether \<^verbatim>\<open>os.makedirs\<close> can create
  them, whether the summary file can be written, the metadata the decoder reports, and the
  frames \<^verbatim>\<open>cap.read()\<close> yields before it reports the end.
\<close>

record 'f env =
  env_cv2_importable :: bool
  env_input_exists :: bool
  env_cap_opened :: bool
  env_output_dir_exists :: bool
  env_output_makedirs_ok :: bool
  env_out_opened :: bool
  env_summary_dir_exists :: bool
  env_summary_makedirs_ok :: bool
  env_summary_writable :: bool
  env_fps :: real
  env_width :: int
  env_height :: int
  env_frames :: "'f list"

datatype py_error = OSError

text \<open>
  Lines 246--252: the parent directory is created when it does not exist;
  \<^verbatim>\<open>os.makedirs\<close> raises \<^verbatim>\<open>OSError\<close> when it cannot.
\<close>

definition ensure_output_dir :: "bool \<Rightarrow> bool \<Rightarrow> py_error + unit" where
  "ensure_output_dir dir_exists makedirs_ok =
     (if \<not> dir_exists then (if makedirs_ok then Inr () else Inl OSError) else Inr ())"

text \<open>
  What a run leaves: the exit status of the process, the number of frames read and
  processed, the frames handed to the encoder, the summary written (if one was asked for
  and could be written), and the exception that ended the run, if one did.
\<close>

record 'o outcome =
  oc_status :: int
  oc_frames :: nat
  oc_written :: "'o list"
  oc_summary :: "summary option"
  oc_uncaught :: "py_error option"

definition failed :: "int \<Rightarrow> 'o outcome" where
  "failed code =
     \<lparr>oc_status = code, oc_frames = 0, oc_written = [], oc_summary = None, oc_uncaught = None\<rparr>"

text \<open>
  Neither \<^verbatim>\<open>process_video\<close> nor \<^verbatim>\<open>main\<close> catches the exception of
  \<^verbatim>\<open>ensure_output_dir\<close>: the interpreter prints the traceback and exits with status 1.
\<close>

definition uncaught :: "py_error \<Rightarrow> nat \<Rightarrow> 'o list \<Rightarrow> 'o outcome" where
  "uncaught err frame_idx written =
     \<lparr>oc_status = 1, oc_frames = frame_idx, oc_written = written, oc_summary = None,
      oc_uncaught = Some err\<rparr>"

text \<open>
  The \<^verbatim>\<open>while True\<close> loop (lines 390--493). The work on one frame (lines 395--482) is the
  parameter \<open>per_frame\<close>: it gives the frame to write and the frame's hotspots. The loop ends
  when the frames do.
\<close>

fun frame_loop ::
  "('f \<Rightarrow> 'o \<times> hotspot list) \<Rightarrow> real \<Rightarrow> 'f list \<Rightarrow> nat \<Rightarrow> 'o list \<Rightarrow> run_hotspot list
     \<Rightarrow> nat \<times> 'o list \<times> run_hotspot list" where
  "frame_loop per_frame fps [] frame_idx written all_hotspots = (frame_idx, written, all_hotspots)"
| "frame_loop per_frame fps (frame # rest) frame_idx written all_hotspots =
     (case per_frame frame of (out_frame_u8, hotspots) \<Rightarrow>
        frame_loop per_frame fps rest (Suc frame_idx) (written @ [out_frame_u8])
          (all_hotspots @ map (\<lambda>h. with_time h frame_idx fps) hotspots))"

text \<open>
  Lines 342--547. A summary that cannot be written is a warning (lines 534--545): the run
  still returns 0.
\<close>

definition process_video :: "('f \<Rightarrow> 'o \<times> hotspot list) \<Rightarrow> args \<Rightarrow> 'f env \<Rightarrow> 'o outcome" where
  "process_video per_frame a e =
     (if \<not> env_input_exists e then failed 3
      else if \<not> env_cap_opened e then failed 3
      else let fps = (if env_fps e \<le> 0 then 25 else env_fps e)
           in case ensure_output_dir (env_output_dir_exists e) (env_output_makedirs_ok e) of
                Inl err \<Rightarrow> uncaught err 0 []
              | Inr _ \<Rightarrow>
                  if \<not> env_out_opened e then failed 3
                  else case frame_loop per_frame fps (env_frames e) 0 [] [] of
                    (frame_idx, written, all_hotspots) \<Rightarrow>
                      let duration_sec = (if 0 < fps then real frame_idx / fps else 0)
                      in if arg_summary_json a \<noteq> None then
                           case ensure_output_dir (env_summary_dir_exists e)
                                  (env_summary_makedirs_ok e) of
                             Inl err \<Rightarrow> uncaught err frame_idx written
                           | Inr _ \<Rightarrow>
                               let summary = build_summary a (env_width e) (env_height e)
                                     frame_idx duration_sec all_hotspots
                               in \<lparr>oc_status = 0, oc_frames = frame_idx, oc_written = written,
                                   oc_summary = (if env_summary_writable e then Some summary
                                                 else None),
                                   oc_uncaught = None\<rparr>
                         else \<lparr>oc_status = 0, oc_frames = frame_idx, oc_written = written,
                               oc_summary = None, oc_uncaught = None\<rparr>)"

text \<open>
  The module from its first line, once \<^verbatim>\<open>argparse\<close> has accepted the command line: the
  import guard (lines 37--45) exits with status 3 before anything else runs; otherwise
  \<^verbatim>\<open>main\<close> exits with the status of \<^verbatim>\<open>process_video\<close>.
\<close>

definition main :: "('f \<Rightarrow> 'o \<times> hotspot list) \<Rightarrow> args \<Rightarrow> 'f env \<Rightarrow> 'o outcome" where
  "main per_frame ns e =
     (if \<not> env_cv2_importable e then failed 3
      else process_video per_frame (parse_args ns) e)"

section \<open>Example data\<close>

text \<open>Concrete inputs on which the theorems of the next chapter are instantiated.\<close>

definition example_run :: "run_hotspot list" where
  "example_run =
     [\<lparr>hs_x = 0, hs_y = 0, hs_w = 2, hs_h = 2, hs_pixels = 4, hs_meanScore = 0.5,
       hs_tempC = 50, hs_frameIdx = 0, hs_tSec = 0\<rparr>,
      \<lparr>hs_x = 3, hs_y = 1, hs_w = 3, hs_h = 3, hs_pixels = 9, hs_meanScore = 0.8,
       hs_tempC = 80, hs_frameIdx = 1, hs_tSec = 0.1\<rparr>,
      \<lparr>hs_x = 5, hs_y = 5, hs_w = 2, hs_h = 2, hs_pixels = 4, hs_meanScore = 0.3,
       hs_tempC = 30, hs_frameIdx = 2, hs_tSec = 0.2\<rparr>]"

definition example_env :: "nat env" where
  "example_env =
     \<lparr>env_cv2_importable = True, env_input_exists = True, env_cap_opened = True,
      env_output_dir_exists = True, env_output_makedirs_ok = True, env_out_opened = True,
      env_summary_dir_exists = True, env_summary_makedirs_ok = True,
      env_summary_writable = True, env_fps = 10, env_width = 64, env_height = 64,
      env_frames = [7, 8]\<rparr>"

definition example_per_frame :: "nat \<Rightarrow> nat \<times> hotspot list" where
  "example_per_frame frame = (frame, [])"
text \<open>
  A smoothed score map of 3 rows and 8 columns (24 pixels) with two warm runs, separated
  by a cold row, and their labelling: 6 pixels in row 0 and 7 pixels in row 2.
\<close>

definition example_heat :: "real list list" where
  "example_heat =
     [[1/2, 1/2, 1/2, 1/2, 1/2, 1/2, 0, 0],
      [0, 0, 0, 0, 0, 0, 0, 0],
      [1/2, 1/2, 1/2, 1/2, 1/2, 1/2, 1/2, 0]]"

definition example_comps :: "pixel_pos list list" where
  "example_comps =
     [[(0, 0), (0, 1), (0, 2), (0, 3), (0, 4), (0, 5)],
      [(2, 0), (2, 1), (2, 2), (2, 3), (2, 4), (2, 5), (2, 6)]]"

text \<open>A map of \<open>h\<close> rows and \<open>w\<close> columns whose only warm pixel is its first.\<close>

definition single_pixel_map :: "nat \<Rightarrow> nat \<Rightarrow> real list list" where
  "single_pixel_map h w = (1 # replicate (w - 1) 0) # replicate (h - 1) (replicate w 0)"

text \<open>One row of 41 pixels, every second one warm: 21 components of one pixel each.\<close>

definition striped_map :: "real list list" where
  "striped_map = [concat (replicate 20 [1, 0]) @ [1]]"

definition striped_comps :: "pixel_pos list list" where
  "striped_comps = map (\<lambda>k. [(0, 2 * k)]) [0..<21]"

chapter \<open>Properties\<close>

section \<open>Primitives\<close>

lemma np_clip_bounds: "lo \<le> hi \<Longrightarrow> lo \<le> np_clip x lo hi \<and> np_clip x lo hi \<le> hi"
  by (simp add: np_clip_def)




section \<open>Rounding\<close>

text \<open>
  The rounding function is what a floating-point rounding has to be: it is odd, it keeps
  the sign, it is non-decreasing, and it leaves its own results unchanged.
\<close>

lemma round_half_even_bounds: "\<lfloor>x\<rfloor> \<le> round_half_even x \<and> round_half_even x \<le> \<lfloor>x\<rfloor> + 1"
  by (simp add: round_half_even_def Let_def)

lemma round_half_even_of_int: "round_half_even (of_int k) = k"
  by (simp add: round_half_even_def Let_def)

lemma round_half_even_mono:
  assumes "a \<le> b"
  shows "round_half_even a \<le> round_half_even b"
proof (cases "\<lfloor>a\<rfloor> < \<lfloor>b\<rfloor>")
  case True
  have "round_half_even a \<le> \<lfloor>a\<rfloor> + 1" using round_half_even_bounds [of a] by simp
  also have "\<dots> \<le> \<lfloor>b\<rfloor>" using True by simp
  also have "\<dots> \<le> round_half_even b" using round_half_even_bounds [of b] by simp
  finally show ?thesis .
next
  case False
  with floor_mono [OF assms] have eq: "\<lfloor>a\<rfloor> = \<lfloor>b\<rfloor>" by simp
  with assms show ?thesis
    by (simp add: round_half_even_def Let_def)
qed

lemma round_half_even_minus: "round_half_even (- x) = - round_half_even x"
proof (cases "x = of_int \<lfloor>x\<rfloor>")
  case True
  then obtain k where "x = of_int k" ..
  then have "- x = of_int (- k)" by simp
  then show ?thesis
    using round_half_even_of_int [of "- k"] round_half_even_of_int [of k] \<open>x = of_int k\<close> by simp
next
  case False
  have fl: "\<lfloor>- x\<rfloor> = - \<lfloor>x\<rfloor> - 1"
    using False by (simp add: floor_minus ceiling_altdef)
  have pos: "0 < x - of_int \<lfloor>x\<rfloor>" using False by (simp add: less_le)
  show ?thesis
    using pos by (auto simp: round_half_even_def Let_def fl)
qed

lemma binade_bounds:
  assumes "x \<noteq> 0"
  shows "2 powi (binade x) \<le> \<bar>x\<bar> \<and> \<bar>x\<bar> < 2 powi (binade x + 1)"
proof (cases "1 \<le> \<bar>x\<bar>")
  case True
  let ?n = "\<lfloor>\<bar>x\<bar>\<rfloor>"
  have n: "0 < ?n" using True by simp
  from bitlen_bounds [OF n] have lo: "2 ^ nat (bitlen ?n - 1) \<le> ?n" and hi: "?n < 2 ^ nat (bitlen ?n)"
    by simp_all
  have b1: "1 \<le> bitlen ?n" using n by (simp add: bitlen_alt_def)
  have e: "binade x = bitlen ?n - 1" using True by (simp add: binade_def)
  have "(2::real) powi (bitlen ?n - 1) = 2 ^ nat (bitlen ?n - 1)"
    using b1 by (simp add: power_int_def)
  also have "\<dots> = of_int (2 ^ nat (bitlen ?n - 1))" by simp
  also have "\<dots> \<le> of_int ?n" using lo by (simp only: of_int_le_iff)
  also have "\<dots> \<le> \<bar>x\<bar>" by simp
  finally have A: "2 powi (binade x) \<le> \<bar>x\<bar>" unfolding e .
  have "?n + 1 \<le> 2 ^ nat (bitlen ?n)" using hi by simp
  then have "(of_int (?n + 1) :: real) \<le> of_int (2 ^ nat (bitlen ?n))" by (simp only: of_int_le_iff)
  then have up: "real_of_int ?n + 1 \<le> 2 ^ nat (bitlen ?n)" by simp
  have "\<bar>x\<bar> < real_of_int ?n + 1" by linarith
  with up have "\<bar>x\<bar> < 2 ^ nat (bitlen ?n)" by linarith
  also have "(2::real) ^ nat (bitlen ?n) = 2 powi (bitlen ?n)"
    using b1 by (simp add: power_int_def)
  finally have B: "\<bar>x\<bar> < 2 powi (binade x + 1)" unfolding e by simp
  from A B show ?thesis ..
next
  case False
  then have small: "\<bar>x\<bar> < 1" by simp
  have xpos: "0 < \<bar>x\<bar>" using assms by simp
  let ?y = "1 / \<bar>x\<bar>"
  let ?m = "\<lceil>?y\<rceil>"
  have y1: "1 < ?y" using small xpos by simp
  then have m2: "2 \<le> ?m" by linarith
  let ?k = "bitlen (?m - 1)"
  have m1: "0 < ?m - 1" using m2 by simp
  from bitlen_bounds [OF m1] have lo: "2 ^ nat (?k - 1) \<le> ?m - 1" and hi: "?m - 1 < 2 ^ nat ?k"
    by simp_all
  have k1: "1 \<le> ?k" using m1 by (simp add: bitlen_alt_def)
  have e: "binade x = - ?k" using False by (simp add: binade_def)
  have "?m \<le> 2 ^ nat ?k" using hi by simp
  then have "(of_int ?m :: real) \<le> of_int (2 ^ nat ?k)" by (simp only: of_int_le_iff)
  then have um: "real_of_int ?m \<le> 2 ^ nat ?k" by simp
  have "?y \<le> real_of_int ?m" by linarith
  with um have "?y \<le> 2 ^ nat ?k" by linarith
  then have "1 \<le> 2 ^ nat ?k * \<bar>x\<bar>" using xpos by (simp add: divide_le_eq)
  then have "1 / 2 ^ nat ?k \<le> \<bar>x\<bar>" by (simp add: divide_le_eq mult.commute)
  moreover have "(2::real) powi (- ?k) = 1 / 2 ^ nat ?k"
    using k1 by (simp add: power_int_def inverse_eq_divide power_one_over)
  ultimately have A: "2 powi (binade x) \<le> \<bar>x\<bar>" unfolding e by simp
  have "(of_int (2 ^ nat (?k - 1)) :: real) \<le> of_int (?m - 1)" using lo by (simp only: of_int_le_iff)
  then have dn: "2 ^ nat (?k - 1) \<le> real_of_int ?m - 1" by simp
  have "real_of_int ?m - 1 < ?y" by linarith
  with dn have "2 ^ nat (?k - 1) < ?y" by linarith
  then have "2 ^ nat (?k - 1) * \<bar>x\<bar> < 1" using xpos by (simp add: less_divide_eq)
  then have "\<bar>x\<bar> < 1 / 2 ^ nat (?k - 1)" by (simp add: less_divide_eq mult.commute)
  moreover have "(2::real) powi (- ?k + 1) = 1 / 2 ^ nat (?k - 1)"
  proof (cases "?k = 1")
    case True
    then show ?thesis by simp
  next
    case False
    with k1 have "- ?k + 1 < 0" by simp
    then have "(2::real) powi (- ?k + 1) = inverse 2 ^ nat (- (- ?k + 1))"
      by (simp add: power_int_def)
    also have "nat (- (- ?k + 1)) = nat (?k - 1)" by simp
    finally show ?thesis by (simp add: inverse_eq_divide power_one_over)
  qed
  ultimately have B: "\<bar>x\<bar> < 2 powi (binade x + 1)" unfolding e by simp
  from A B show ?thesis ..
qed

lemma binade_mono:
  assumes "x \<noteq> 0" and "\<bar>x\<bar> \<le> \<bar>y\<bar>"
  shows "binade x \<le> binade y"
proof (rule ccontr)
  assume "\<not> binade x \<le> binade y"
  then have "binade y + 1 \<le> binade x" by simp
  then have "(2::real) powi (binade y + 1) \<le> 2 powi (binade x)"
    by (rule power_int_increasing) simp
  also have "\<dots> \<le> \<bar>x\<bar>" using binade_bounds [OF assms(1)] by simp
  also have "\<dots> \<le> \<bar>y\<bar>" by (rule assms(2))
  finally have "2 powi (binade y + 1) \<le> \<bar>y\<bar>" .
  moreover have "y \<noteq> 0" using assms by auto
  ultimately show False using binade_bounds [of y] by simp
qed

lemma binade_minus: "binade (- x) = binade x"
  by (simp add: binade_def)

lemma round_bin_zero: "round_bin p emin 0 = 0"
  by (simp add: round_bin_def)

lemma round_bin_minus: "round_bin p emin (- x) = - round_bin p emin x"
  by (simp add: round_bin_def binade_minus Let_def round_half_even_minus)

lemma round_bin_nonneg:
  assumes "0 \<le> x"
  shows "0 \<le> round_bin p emin x"
proof (cases "x = 0")
  case True
  then show ?thesis by (simp add: round_bin_def)
next
  case False
  let ?q = "max (binade x - int p) emin"
  have "0 \<le> x / 2 powi ?q" using assms by simp
  then have "0 \<le> \<lfloor>x / 2 powi ?q\<rfloor>" by simp
  with round_half_even_bounds [of "x / 2 powi ?q"] have "0 \<le> round_half_even (x / 2 powi ?q)"
    by linarith
  then have "0 \<le> real_of_int (round_half_even (x / 2 powi ?q)) * 2 powi ?q"
    by simp
  with False show ?thesis by (simp add: round_bin_def Let_def)
qed

lemma round_bin_mono_pos:
  assumes xpos: "0 < x" and le: "x \<le> y"
  shows "round_bin p emin x \<le> round_bin p emin y"
proof -
  let ?qx = "max (binade x - int p) emin" and ?qy = "max (binade y - int p) emin"
  have ypos: "0 < y" using xpos le by simp
  have rx: "round_bin p emin x = real_of_int (round_half_even (x / 2 powi ?qx)) * 2 powi ?qx"
    using xpos by (simp add: round_bin_def Let_def)
  have ry: "round_bin p emin y = real_of_int (round_half_even (y / 2 powi ?qy)) * 2 powi ?qy"
    using ypos by (simp add: round_bin_def Let_def)
  have bxy: "binade x \<le> binade y"
    using xpos le by (intro binade_mono) simp_all
  show ?thesis
  proof (cases "?qx = ?qy")
    case True
    have "x / 2 powi ?qy \<le> y / 2 powi ?qy"
      using le by (simp add: divide_right_mono)
    then have "round_half_even (x / 2 powi ?qy) \<le> round_half_even (y / 2 powi ?qy)"
      by (rule round_half_even_mono)
    then have "real_of_int (round_half_even (x / 2 powi ?qy)) * 2 powi ?qy
        \<le> real_of_int (round_half_even (y / 2 powi ?qy)) * 2 powi ?qy"
      by (simp add: mult_right_mono)
    then show ?thesis unfolding rx ry True .
  next
    case False
    with bxy have qlt: "?qx < ?qy" by (simp add: max_def split: if_splits)
    then have qy: "?qy = binade y - int p" by (simp add: max_def split: if_splits)
    from qlt bxy have blt: "binade x < binade y" by (simp add: max_def split: if_splits)
    let ?B = "(2::real) powi (binade y)"
    have xB: "x \<le> ?B"
    proof -
      have "x < 2 powi (binade x + 1)" using binade_bounds [of x] xpos by simp
      also have "\<dots> \<le> ?B" using blt by (intro power_int_increasing) simp_all
      finally show ?thesis by simp
    qed
    have By: "?B \<le> y" using binade_bounds [of y] ypos by simp
    have dpos: "0 \<le> binade y - ?qx" using qlt qy by simp
    have Kx: "?B / 2 powi ?qx = real_of_int (2 ^ nat (binade y - ?qx))"
    proof -
      have "?B / 2 powi ?qx = 2 powi (binade y - ?qx)"
        by (simp add: power_int_diff)
      also have "\<dots> = 2 ^ nat (binade y - ?qx)" using dpos by (simp add: power_int_def)
      finally show ?thesis by simp
    qed
    have "x / 2 powi ?qx \<le> ?B / 2 powi ?qx" using xB by (simp add: divide_right_mono)
    then have "round_half_even (x / 2 powi ?qx) \<le> round_half_even (?B / 2 powi ?qx)"
      by (rule round_half_even_mono)
    also have "\<dots> = 2 ^ nat (binade y - ?qx)"
      unfolding Kx by (rule round_half_even_of_int)
    finally have "real_of_int (round_half_even (x / 2 powi ?qx)) \<le> real_of_int (2 ^ nat (binade y - ?qx))"
      by (simp only: of_int_le_iff)
    then have "real_of_int (round_half_even (x / 2 powi ?qx)) * 2 powi ?qx
        \<le> real_of_int (2 ^ nat (binade y - ?qx)) * 2 powi ?qx"
      by (simp add: mult_right_mono)
    also have "\<dots> = ?B" unfolding Kx [symmetric] by simp
    finally have low: "round_bin p emin x \<le> ?B" unfolding rx .
    have Ky: "?B / 2 powi ?qy = real_of_int (2 ^ p)"
    proof -
      have "?B / 2 powi ?qy = 2 powi (binade y - ?qy)"
        by (simp add: power_int_diff)
      also have "\<dots> = 2 powi (int p)" unfolding qy by simp
      finally show ?thesis by simp
    qed
    have "?B / 2 powi ?qy \<le> y / 2 powi ?qy" using By by (simp add: divide_right_mono)
    then have "round_half_even (?B / 2 powi ?qy) \<le> round_half_even (y / 2 powi ?qy)"
      by (rule round_half_even_mono)
    then have "2 ^ p \<le> round_half_even (y / 2 powi ?qy)"
      unfolding Ky round_half_even_of_int .
    then have "real_of_int (2 ^ p) \<le> real_of_int (round_half_even (y / 2 powi ?qy))"
      by (simp only: of_int_le_iff)
    then have S: "real_of_int (2 ^ p) * 2 powi ?qy
        \<le> real_of_int (round_half_even (y / 2 powi ?qy)) * 2 powi ?qy"
      by (simp add: mult_right_mono)
    have E: "real_of_int (2 ^ p) * 2 powi ?qy = ?B" unfolding Ky [symmetric] by simp
    have high: "?B \<le> round_bin p emin y" unfolding ry using S by (simp only: E)
    from low high show ?thesis by simp
  qed
qed

lemma round_bin_mono:
  assumes "x \<le> y"
  shows "round_bin p emin x \<le> round_bin p emin y"
proof -
  consider "0 < x" | "x = 0" | "x < 0" "0 \<le> y" | "x < 0" "y < 0" by linarith
  then show ?thesis
  proof cases
    case 1
    then show ?thesis using assms by (rule round_bin_mono_pos)
  next
    case 2
    then show ?thesis using assms round_bin_nonneg [of y p emin] by (simp add: round_bin_zero)
  next
    case 3
    then have "0 \<le> round_bin p emin (- x)" by (intro round_bin_nonneg) simp
    then have "round_bin p emin x \<le> 0" by (simp add: round_bin_minus)
    also have "0 \<le> round_bin p emin y" using 3(2) by (rule round_bin_nonneg)
    finally show ?thesis .
  next
    case 4
    then have "0 < - y" "- y \<le> - x" using assms by simp_all
    then have "round_bin p emin (- y) \<le> round_bin p emin (- x)" by (rule round_bin_mono_pos)
    then show ?thesis by (simp add: round_bin_minus)
  qed
qed











lemma fl32_zero: "fl32 0 = 0"
  by (simp add: fl32_def)


lemma fl64_mono: "x \<le> y \<Longrightarrow> fl64 x \<le> fl64 y"
  unfolding fl64_def by (rule round_bin_mono)


section \<open>Configuration\<close>

text \<open>
  What the clamping does achieve: both percentiles end in \<open>[0, 0.999]\<close>, \<open>alpha\<close> and \<open>ema\<close>
  in \<open>[0, 1]\<close>, the high percentile is never below the low one, and \<open>gamma\<close>, \<open>ambient\<close>
  and \<open>maxC\<close> pass through unchanged.
\<close>

lemma parse_args_clamped:
  "0 \<le> arg_pLow (parse_args ns) \<and> arg_pLow (parse_args ns) \<le> 0.999 \<and>
   0 \<le> arg_pHigh (parse_args ns) \<and> arg_pHigh (parse_args ns) \<le> 0.999 \<and>
   0 \<le> arg_alpha (parse_args ns) \<and> arg_alpha (parse_args ns) \<le> 1"
  by (simp add: parse_args_def np_clip_def Let_def min_def max_def)

lemma parse_args_passes_gamma: "arg_gamma (parse_args ns) = arg_gamma ns"
  by (simp add: parse_args_def Let_def)

lemma parse_args_ordered: "arg_pLow (parse_args ns) \<le> arg_pHigh (parse_args ns)"
  by (simp add: parse_args_def np_clip_def Let_def min_def max_def)

lemma parse_args_strict_below_cap:
  "arg_pLow ns < 0.999 \<Longrightarrow> arg_pLow (parse_args ns) < arg_pHigh (parse_args ns)"
  by (simp add: parse_args_def np_clip_def Let_def min_def max_def)

text \<open>
  Claim C2. After argument parsing every configuration value is said to lie in its
  declared range, \<open>gamma\<close> in \<open>[0.1, 6.0]\<close>. \<^verbatim>\<open>parse_args\<close> never assigns \<open>gamma\<close>: on the
  command line \<^verbatim>\<open>--gamma 10\<close> the parsed value is still \<open>10\<close>, above \<open>6.0\<close>. (The upload
  handler of \<^verbatim>\<open>app.py\<close> does clamp \<open>gamma\<close> to \<open>[0.1, 6.0]\<close> before it builds the command
  line.)
\<close>

theorem parse_args_gamma_not_clamped:
  "arg_gamma (parse_args ((default_args ''in.mp4'' ''out.mp4'')\<lparr>arg_gamma := 10\<rparr>)) = 10 \<and>
   \<not> arg_gamma (parse_args ((default_args ''in.mp4'' ''out.mp4'')\<lparr>arg_gamma := 10\<rparr>)) \<le> 6"
  by (simp add: parse_args_def default_args_def Let_def)

text \<open>
  Claim C3. After clamping and the bump the high percentile is said to be strictly above
  the low one. At \<^verbatim>\<open>--pLow 0.999 --pHigh 0.5\<close> the bump \<open>min (pLow + 0.01) 0.999\<close> is
  capped at \<open>0.999\<close>, and both percentiles end equal to \<open>0.999\<close>.
\<close>

theorem parse_args_bump_capped:
  "arg_pLow (parse_args ((default_args ''in.mp4'' ''out.mp4'')\<lparr>arg_pLow := 0.999, arg_pHigh := 0.5\<rparr>)) = 0.999 \<and>
   arg_pHigh (parse_args ((default_args ''in.mp4'' ''out.mp4'')\<lparr>arg_pLow := 0.999, arg_pHigh := 0.5\<rparr>)) = 0.999"
  by (simp add: parse_args_def default_args_def np_clip_def Let_def)

section \<open>binary32 evaluation\<close>

text \<open>The equations that let the simplifier compute \<open>fl32\<close> at a rational number.\<close>

lemmas fl32_eval = fl32_def binade_def compute_bitlen round_half_even_def Let_def
  power_int_minus_divide

text \<open>
  Known binary32 roundings: exact values, ties to the even significand on both sides, a
  negative number, and the subnormal grid.
\<close>

lemma fl32_examples:
  "fl32 1 = 1 \<and> fl32 (1/2) = 1/2 \<and> fl32 255 = 255 \<and>
   fl32 (1 + 1 / 2 ^ 24) = 1 \<and> fl32 (1 + 3 / 2 ^ 24) = 1 + 1 / 2 ^ 22 \<and>
   fl32 (1 + 1 / 2 ^ 23) = 1 + 1 / 2 ^ 23 \<and> fl32 (- (1/3)) = - (11184811 / 2 ^ 25) \<and>
   fl32 (1 / 2 ^ 150) = 0 \<and> fl32 (3 / 2 ^ 150) = 1 / 2 ^ 148"
  by (simp add: fl32_eval)

text \<open>The three literals of the colour ramp.\<close>

lemma fl32_033: "fl32 0.33 = 11072963 / 2 ^ 25"
  by (simp add: fl32_eval)

lemma fl32_066: "fl32 0.66 = 11072963 / 2 ^ 24"
  by (simp add: fl32_eval)

lemma fl32_034: "fl32 0.34 = 11408507 / 2 ^ 25"
  by (simp add: fl32_eval)

section \<open>Colour ramp\<close>

text \<open>
  The parts of the boundary behaviour that hold in binary32: pure blue at \<open>tg = 0\<close>, and at
  the two segment boundaries (the binary32 values of \<open>0.33\<close> and \<open>0.66\<close>) the formulas of the
  adjacent segments give the same colour.
\<close>

lemma ramp_blue_end: "ramp 0 = (0, 0, 1)"
  by (simp add: ramp_def seg1_rgb_def fl32_eval)

lemma ramp_continuous_033:
  "seg1_rgb (fl32 0.33) = seg2_rgb (fl32 0.33) \<and> ramp (fl32 0.33) = (0, 1, 1)"
  by (simp add: ramp_def seg1_rgb_def seg2_rgb_def fl32_eval)

lemma ramp_continuous_066:
  "seg2_rgb (fl32 0.66) = seg3_rgb (fl32 0.66) \<and> ramp (fl32 0.66) = (1, 1, 0)"
  by (simp add: ramp_def seg2_rgb_def seg3_rgb_def fl32_eval)

text \<open>
  Claim C8. The colour mapper is said to be exactly pure red \<open>(1, 0, 0)\<close> at \<open>tg = 1\<close>. In
  binary32 the third segment computes \<open>u3 = (1 - 0.66) / 0.34\<close> from the rounded literals:
  \<open>1 - fl32 0.66 = 11408506 / 2 ^ 25\<close> and \<open>fl32 0.34 = 11408507 / 2 ^ 25\<close>, so \<open>u3\<close> rounds
  to \<open>1 - 1 / 2 ^ 24\<close> and the green channel is \<open>1 / 2 ^ 24\<close>, not \<open>0\<close>.
\<close>

theorem ramp_red_end_green_residue: "ramp 1 = (1, 1 / 2 ^ 24, 0)"
  by (simp add: ramp_def seg3_rgb_def fl32_eval)

section \<open>Compositor without overlay\<close>

text \<open>
  The round trip of one channel value \<open>n\<close>: divide by 255, multiply by 255 (both rounded to
  binary32), clip, truncate. It is checked value by value, in four ranges.
\<close>

lemma roundtrip_0_64:
  "n < 64 \<Longrightarrow> py_int (np_clip (fl32 (fl32 (real n / 255) * 255)) 0 255) = int n"
proof -
  assume "n < 64"
  then have "n \<in> set [0..<64] \<and> True"
    by simp
  then show ?thesis
    apply (simp add: upt_conv_Cons del: set_upt)
    apply (elim disjE; hypsubst_thin; simp add: fl32_eval py_int_def np_clip_def)
    done
qed

lemma roundtrip_64_128:
  "64 \<le> n \<Longrightarrow> n < 128 \<Longrightarrow> py_int (np_clip (fl32 (fl32 (real n / 255) * 255)) 0 255) = int n"
proof -
  assume "64 \<le> n" "n < 128"
  then have "n \<in> set [64..<128] \<and> True"
    by (simp del: upt_rec_numeral)
  then show ?thesis
    apply (simp add: upt_conv_Cons del: set_upt)
    apply (elim disjE; hypsubst_thin; simp add: fl32_eval py_int_def np_clip_def)
    done
qed

lemma roundtrip_128_192:
  "128 \<le> n \<Longrightarrow> n < 192 \<Longrightarrow> py_int (np_clip (fl32 (fl32 (real n / 255) * 255)) 0 255) = int n"
proof -
  assume "128 \<le> n" "n < 192"
  then have "n \<in> set [128..<192] \<and> True"
    by (simp del: upt_rec_numeral)
  then show ?thesis
    apply (simp add: upt_conv_Cons del: set_upt)
    apply (elim disjE; hypsubst_thin; simp add: fl32_eval py_int_def np_clip_def)
    done
qed

lemma roundtrip_192_256:
  "192 \<le> n \<Longrightarrow> n < 256 \<Longrightarrow> py_int (np_clip (fl32 (fl32 (real n / 255) * 255)) 0 255) = int n"
proof -
  assume "192 \<le> n" "n < 256"
  then have "n \<in> set [192..<256] \<and> True"
    by (simp del: upt_rec_numeral)
  then show ?thesis
    apply (simp add: upt_conv_Cons del: set_upt)
    apply (elim disjE; hypsubst_thin; simp add: fl32_eval py_int_def np_clip_def)
    done
qed

lemma roundtrip_u8:
  "n < 256 \<Longrightarrow> py_int (np_clip (fl32 (fl32 (real n / 255) * 255)) 0 255) = int n"
  using roundtrip_0_64 [of n] roundtrip_64_128 [of n] roundtrip_128_192 [of n]
    roundtrip_192_256 [of n]
  by linarith

lemma compose_channel_no_overlay: "compose_channel True c heat a = c"
proof -
  have "unat c < 256"
    using unsigned_less [of c] by simp
  then have "py_int (np_clip (fl32 (fl32 (real (unat c) / 255) * 255)) 0 255) = int (unat c)"
    by (rule roundtrip_u8)
  then show ?thesis
    by (simp add: compose_channel_def astype_uint8_def)
qed

lemma compose_pixel_no_overlay: "compose_pixel True px cm = px"
  by (simp add: compose_pixel_def compose_channel_no_overlay split: prod.splits)

lemma map_enumerate_ignore_index: "map (\<lambda>(j, x). x) (enumerate k xs) = xs"
  using map_snd_enumerate [of k xs] by (simp add: case_prod_unfold)

text \<open>
  Claim C5. With the overlay disabled the frame that is written (before any preview
  annotation is drawn on it) equals the input frame, pixel by pixel: every \<^verbatim>\<open>uint8\<close>
  channel value survives the binary32 round trip unchanged, whatever the colour map holds.
\<close>

theorem no_overlay_frame_identical:
  "compose_channel True c heat a = c \<and> compose_frame True frame cmap = frame"
  by (simp add: compose_frame_def compose_pixel_no_overlay compose_channel_no_overlay
      map_enumerate_ignore_index)

section \<open>Score to temperature\<close>









section \<open>Dynamic range normalizer\<close>

lemma percentile_thresholds_strict:
  "fst (percentile_thresholds pLow pHigh flat) < snd (percentile_thresholds pLow pHigh flat)"
  by (simp add: percentile_thresholds_def Let_def split: prod.splits if_splits)

lemma normalize_heat_unit:
  "row \<in> set (normalize_heat heat_used lo hi) \<Longrightarrow> v \<in> set row \<Longrightarrow> 0 \<le> v \<and> v \<le> 1"
  by (auto simp: normalize_heat_def np_clip_def)

text \<open>
  Claim C6. For every smoothed score map (empty, constant or not) and every pair of
  percentiles, the high threshold is strictly above the low one after the bump, and every
  normalized value lies in \<open>[0, 1]\<close>.
\<close>

theorem normalizer_never_degenerates:
  "fst (percentile_thresholds pLow pHigh (concat heat_used))
     < snd (percentile_thresholds pLow pHigh (concat heat_used)) \<and>
   (\<forall>row \<in> set (normalize_heat heat_used
        (fst (percentile_thresholds pLow pHigh (concat heat_used)))
        (snd (percentile_thresholds pLow pHigh (concat heat_used)))).
      \<forall>v \<in> set row. 0 \<le> v \<and> v \<le> 1)"
  using percentile_thresholds_strict normalize_heat_unit by blast

text \<open>
  A constant map and a map of four different scores at the default percentiles (both need
  the bump), and the second map with percentiles \<open>0\<close> and \<open>0.98\<close> (no bump).
\<close>

theorem normalizer_never_degenerates_witness:
  "percentile_thresholds 0.8 0.98 (concat [[1/2, 1/2], [1/2, 1/2]]) = (1/2, 1/2 + 1/10^6) \<and>
   percentile_thresholds 0.8 0.98 (concat [[0.2, 0.9], [0.4, 0.6]]) = (0.6, 0.6 + 1/10^6) \<and>
   percentile_thresholds 0 0.98 (concat [[0.2, 0.9], [0.4, 0.6]]) = (0.2, 0.6) \<and>
   normalize_heat [[0.2, 0.9], [0.4, 0.6]] 0.2 0.6 = [[0, 1], [1/2, 1]]"
  using normalizer_never_degenerates [of 0 "0.98" "[[0.2, 0.9], [0.4, 0.6]]"]
  by (simp add: percentile_thresholds_def normalize_heat_def np_clip_def py_int_def Let_def)

section \<open>Summary\<close>

lemma min_scan_Min: "min_scan m xs = Min (insert m (set xs))"
proof (induction xs arbitrary: m)
  case Nil
  then show ?case by simp
next
  case (Cons x xs)
  have "Min (insert (if x < m then x else m) (set xs)) = Min (insert m (insert x (set xs)))"
    by (cases "set xs = {}") (auto simp: min_def insert_commute)
  with Cons show ?case by simp
qed

lemma max_scan_Max: "max_scan m xs = Max (insert m (set xs))"
proof (induction xs arbitrary: m)
  case Nil
  then show ?case by simp
next
  case (Cons x xs)
  have "Max (insert (if m < x then x else m) (set xs)) = Max (insert m (insert x (set xs)))"
    by (cases "set xs = {}") (auto simp: max_def insert_commute)
  with Cons show ?case by simp
qed

lemma py_min_Min: "xs \<noteq> [] \<Longrightarrow> py_min xs = Some (Min (set xs))"
  by (cases xs) (simp_all add: py_min_def min_scan_Min)

lemma py_max_Max: "xs \<noteq> [] \<Longrightarrow> py_max xs = Some (Max (set xs))"
  by (cases xs) (simp_all add: py_max_def max_scan_Max)

lemma sort_pixels_desc_length: "length (sort_pixels_desc hs) = length hs"
  by (simp add: sort_pixels_desc_def)

lemma sort_pixels_desc_mset: "mset (sort_pixels_desc hs) = mset hs"
  by (simp add: sort_pixels_desc_def)

lemma sort_pixels_desc_sorted:
  "sorted_wrt (\<lambda>p q. hs_pixels q \<le> hs_pixels p) (sort_pixels_desc hs)"
proof -
  have "sorted (map (\<lambda>b. - hs_pixels b) (sort_pixels_desc hs))"
    by (simp add: sort_pixels_desc_def)
  then show ?thesis
    by (simp add: sorted_map sorted_wrt_map) 
qed

lemma sorted_wrt_take_drop:
  "sorted_wrt R xs \<Longrightarrow> a \<in> set (take k xs) \<Longrightarrow> b \<in> set (drop k xs) \<Longrightarrow> R a b"
proof -
  assume s: "sorted_wrt R xs" and a: "a \<in> set (take k xs)" and b: "b \<in> set (drop k xs)"
  have "sorted_wrt R (take k xs @ drop k xs)" using s by simp
  then show "R a b" using a b unfolding sorted_wrt_append by blast
qed

text \<open>
  Claim C7. The summary's hotspot list is the run-wide list sorted by pixel area, largest
  first, cut to its first 40 entries: the sorted list is a permutation of the accumulated
  one, in descending order of \<open>pixels\<close>, and no entry that was cut is larger than an entry
  that was kept. The two temperature fields are the minimum and the maximum of \<open>tempC\<close> over
  all accumulated hotspots, and each is \<open>None\<close> exactly when none was accumulated.
\<close>

theorem summary_top_hotspots_and_extremes:
  "sm_hotspots (build_summary a width height frames_used duration_sec hs)
     = take 40 (sort_pixels_desc hs) \<and>
   mset (sort_pixels_desc hs) = mset hs \<and>
   sorted_wrt (\<lambda>p q. hs_pixels q \<le> hs_pixels p) (sort_pixels_desc hs) \<and>
   length (sm_hotspots (build_summary a width height frames_used duration_sec hs))
     = min 40 (length hs) \<and>
   (\<forall>k \<in> set (sm_hotspots (build_summary a width height frames_used duration_sec hs)).
      \<forall>r \<in> set (drop 40 (sort_pixels_desc hs)). hs_pixels r \<le> hs_pixels k) \<and>
   sm_minHotspotTempC (build_summary a width height frames_used duration_sec hs)
     = (if hs = [] then None else Some (Min (hs_tempC ` set hs))) \<and>
   sm_maxHotspotTempC (build_summary a width height frames_used duration_sec hs)
     = (if hs = [] then None else Some (Max (hs_tempC ` set hs))) \<and>
   (sm_minHotspotTempC (build_summary a width height frames_used duration_sec hs) = None
      \<longleftrightarrow> hs = []) \<and>
   (sm_maxHotspotTempC (build_summary a width height frames_used duration_sec hs) = None
      \<longleftrightarrow> hs = [])"
proof -
  have top: "sm_hotspots (build_summary a width height frames_used duration_sec hs)
      = take 40 (sort_pixels_desc hs)"
    by (simp add: build_summary_def Let_def)
  have cut: "\<forall>k \<in> set (take 40 (sort_pixels_desc hs)).
      \<forall>r \<in> set (drop 40 (sort_pixels_desc hs)). hs_pixels r \<le> hs_pixels k"
    using sorted_wrt_take_drop [OF sort_pixels_desc_sorted] by blast
  have lo: "sm_minHotspotTempC (build_summary a width height frames_used duration_sec hs)
      = (if hs = [] then None else Some (Min (hs_tempC ` set hs)))"
    by (simp add: build_summary_def Let_def py_min_Min)
  have hi: "sm_maxHotspotTempC (build_summary a width height frames_used duration_sec hs)
      = (if hs = [] then None else Some (Max (hs_tempC ` set hs)))"
    by (simp add: build_summary_def Let_def py_max_Max)
  show ?thesis
    unfolding top lo hi using cut
    by (simp add: sort_pixels_desc_length sort_pixels_desc_mset sort_pixels_desc_sorted
        min.commute)
qed

text \<open>Three hotspots of three frames; the two of area 4 keep their order.\<close>

theorem summary_top_hotspots_and_extremes_witness:
  "map hs_frameIdx (sm_hotspots (build_summary (default_args ''a/in.mp4'' ''out.mp4'') 64 64 3 0.3 example_run))
     = [1, 0, 2] \<and>
   sm_minHotspotTempC (build_summary (default_args ''a/in.mp4'' ''out.mp4'') 64 64 3 0.3 example_run) = Some 30 \<and>
   sm_maxHotspotTempC (build_summary (default_args ''a/in.mp4'' ''out.mp4'') 64 64 3 0.3 example_run) = Some 80 \<and>
   sm_file (build_summary (default_args ''a/in.mp4'' ''out.mp4'') 64 64 3 0.3 example_run) = ''in.mp4''"
  using summary_top_hotspots_and_extremes
    [of "default_args ''a/in.mp4'' ''out.mp4''" 64 64 3 "0.3" example_run]
  by (simp add: build_summary_def sort_pixels_desc_def example_run_def default_args_def
      py_min_def py_max_def basename_def Let_def)

section \<open>Exit status\<close>

lemma frame_loop_count:
  "frame_loop per_frame fps frames idx written hots = (n, w, h) \<Longrightarrow>
     n = idx + length frames \<and> length w = length written + length frames"
  by (induction per_frame fps frames idx written hots rule: frame_loop.induct)
    (auto split: prod.splits)

text \<open>
  Claim C4, as amended. When the import, the input, the output directory, the encoder and
  (if a summary is asked for) the summary directory all succeed, the run exits with
  status 0, and every frame was processed and written. Each of the three fatal startup
  failures the program tests for exits with the same status 3, before any frame is
  processed or written: OpenCV missing; the input missing or not opened by the decoder;
  the encoder not opened, in an output directory that exists or could be created.
\<close>

theorem exit_status_by_cause:
  "(env_cv2_importable e \<and> env_input_exists e \<and> env_cap_opened e \<and>
    (env_output_dir_exists e \<or> env_output_makedirs_ok e) \<and> env_out_opened e \<and>
    (arg_summary_json ns \<noteq> None \<longrightarrow> env_summary_dir_exists e \<or> env_summary_makedirs_ok e)
      \<longrightarrow> oc_status (main per_frame ns e) = 0 \<and>
          oc_frames (main per_frame ns e) = length (env_frames e) \<and>
          length (oc_written (main per_frame ns e)) = length (env_frames e)) \<and>
   (\<not> env_cv2_importable e
      \<longrightarrow> oc_status (main per_frame ns e) = 3 \<and> oc_frames (main per_frame ns e) = 0 \<and>
          oc_written (main per_frame ns e) = []) \<and>
   (env_cv2_importable e \<and> \<not> (env_input_exists e \<and> env_cap_opened e)
      \<longrightarrow> oc_status (main per_frame ns e) = 3 \<and> oc_frames (main per_frame ns e) = 0 \<and>
          oc_written (main per_frame ns e) = []) \<and>
   (env_cv2_importable e \<and> env_input_exists e \<and> env_cap_opened e \<and>
    (env_output_dir_exists e \<or> env_output_makedirs_ok e) \<and> \<not> env_out_opened e
      \<longrightarrow> oc_status (main per_frame ns e) = 3 \<and> oc_frames (main per_frame ns e) = 0 \<and>
          oc_written (main per_frame ns e) = [])"
proof -
  obtain n w h where loop: "frame_loop per_frame (if env_fps e \<le> 0 then 25 else env_fps e)
      (env_frames e) 0 [] [] = (n, w, h)"
    by (cases "frame_loop per_frame (if env_fps e \<le> 0 then 25 else env_fps e) (env_frames e) 0 [] []")
  from frame_loop_count [OF loop] have cnt: "n = length (env_frames e)" "length w = length (env_frames e)"
    by simp_all
  have js: "arg_summary_json (parse_args ns) = arg_summary_json ns"
    by (simp add: parse_args_def Let_def)
  show ?thesis
    using loop cnt
    by (auto simp: main_def process_video_def ensure_output_dir_def failed_def uncaught_def js Let_def)
qed

text \<open>
  A run of two frames; the same run with the input file missing; and the same run asked
  for a summary whose file cannot be written (a warning only).
\<close>

theorem exit_status_by_cause_witness:
  "oc_status (main example_per_frame (default_args ''in.mp4'' ''out.mp4'') example_env) = 0 \<and>
   oc_frames (main example_per_frame (default_args ''in.mp4'' ''out.mp4'') example_env) = 2 \<and>
   oc_written (main example_per_frame (default_args ''in.mp4'' ''out.mp4'') example_env) = [7, 8] \<and>
   oc_status (main example_per_frame (default_args ''in.mp4'' ''out.mp4'')
      (example_env\<lparr>env_input_exists := False\<rparr>)) = 3 \<and>
   oc_frames (main example_per_frame (default_args ''in.mp4'' ''out.mp4'')
      (example_env\<lparr>env_input_exists := False\<rparr>)) = 0 \<and>
   oc_status (main example_per_frame
      ((default_args ''in.mp4'' ''out.mp4'')\<lparr>arg_summary_json := Some ''s.json''\<rparr>)
      (example_env\<lparr>env_summary_writable := False\<rparr>)) = 0"
  using exit_status_by_cause [of example_env "default_args ''in.mp4'' ''out.mp4''" example_per_frame]
    exit_status_by_cause [of "example_env\<lparr>env_input_exists := False\<rparr>"
      "default_args ''in.mp4'' ''out.mp4''" example_per_frame]
    exit_status_by_cause [of "example_env\<lparr>env_summary_writable := False\<rparr>"
      "(default_args ''in.mp4'' ''out.mp4'')\<lparr>arg_summary_json := Some ''s.json''\<rparr>"
      example_per_frame]
  by (simp add: main_def process_video_def ensure_output_dir_def failed_def uncaught_def
      parse_args_def default_args_def example_env_def example_per_frame_def Let_def)

text \<open>
  The claim as stated gives each failure a status of its own. The four failing runs below
  (input missing, decoder not opened, encoder not opened, OpenCV missing) all exit with 3.
\<close>

theorem exit_statuses_not_distinct:
  "oc_status (main example_per_frame (default_args ''in.mp4'' ''out.mp4'')
      (example_env\<lparr>env_input_exists := False\<rparr>)) = 3 \<and>
   oc_status (main example_per_frame (default_args ''in.mp4'' ''out.mp4'')
      (example_env\<lparr>env_cap_opened := False\<rparr>)) = 3 \<and>
   oc_status (main example_per_frame (default_args ''in.mp4'' ''out.mp4'')
      (example_env\<lparr>env_out_opened := False\<rparr>)) = 3 \<and>
   oc_status (main example_per_frame (default_args ''in.mp4'' ''out.mp4'')
      (example_env\<lparr>env_cv2_importable := False\<rparr>)) = 3"
  by (simp add: main_def process_video_def ensure_output_dir_def failed_def example_env_def Let_def)

text \<open>
  Outside the claim: a directory that does not exist and cannot be created. The
  \<^verbatim>\<open>OSError\<close> of \<^verbatim>\<open>os.makedirs\<close> is not caught, and the process exits with status 1: for
  the output directory before any frame is processed, for the summary directory after all
  frames were processed and written.
\<close>

lemma makedirs_failure_exits_1:
  "(env_cv2_importable e \<and> env_input_exists e \<and> env_cap_opened e \<and>
    \<not> env_output_dir_exists e \<and> \<not> env_output_makedirs_ok e
      \<longrightarrow> oc_status (main per_frame ns e) = 1 \<and> oc_frames (main per_frame ns e) = 0 \<and>
          oc_uncaught (main per_frame ns e) = Some OSError) \<and>
   (env_cv2_importable e \<and> env_input_exists e \<and> env_cap_opened e \<and>
    (env_output_dir_exists e \<or> env_output_makedirs_ok e) \<and> env_out_opened e \<and>
    arg_summary_json ns \<noteq> None \<and> \<not> env_summary_dir_exists e \<and> \<not> env_summary_makedirs_ok e
      \<longrightarrow> oc_status (main per_frame ns e) = 1 \<and>
          oc_frames (main per_frame ns e) = length (env_frames e) \<and>
          oc_summary (main per_frame ns e) = None)"
proof -
  obtain n w h where loop: "frame_loop per_frame (if env_fps e \<le> 0 then 25 else env_fps e)
      (env_frames e) 0 [] [] = (n, w, h)"
    by (cases "frame_loop per_frame (if env_fps e \<le> 0 then 25 else env_fps e) (env_frames e) 0 [] []")
  from frame_loop_count [OF loop] have cnt: "n = length (env_frames e)"
    by simp
  have js: "arg_summary_json (parse_args ns) = arg_summary_json ns"
    by (simp add: parse_args_def Let_def)
  show ?thesis
    using loop cnt
    by (auto simp: main_def process_video_def ensure_output_dir_def failed_def uncaught_def js Let_def)
qed

section \<open>Hotspot detector\<close>

lemma cc_stats_area: "cc_stats ps = (x, y, w, h, area) \<Longrightarrow> area = int (length ps)"
  by (auto simp: cc_stats_def Let_def split: if_splits)

lemma make_hotspot_pixels: "hs_pixels (make_hotspot heat_map ambient maxC g ps) = int (length ps)"
  by (cases "cc_stats ps") (auto simp: make_hotspot_def Let_def dest: cc_stats_area)

lemma hotspot_loop_filter:
  "hotspot_loop heat_map ambient maxC g lo hi comps =
     map (make_hotspot heat_map ambient maxC g)
       (filter (\<lambda>ps. lo \<le> int (length ps) \<and> int (length ps) \<le> hi \<and> ps \<noteq> []) comps)"
proof (induction comps)
  case Nil
  then show ?case by simp
next
  case (Cons ps rest)
  obtain x y w h area where st: "cc_stats ps = (x, y, w, h, area)"
    by (cases "cc_stats ps") auto
  then have "area = int (length ps)" by (rule cc_stats_area)
  with st Cons show ?case by auto
qed

lemma min_area_pos: "1 \<le> min_area total_px min_frac"
  by (simp add: min_area_def)

lemma min_le_max_area: "min_area total_px min_frac \<le> max_area total_px min_frac max_frac"
  by (simp add: max_area_def)

lemma labelled_nonzero:
  assumes "labelled heat_map thr comps" and "ps \<in> set comps"
  shows "count_nonzero (map (map (\<lambda>v. thr \<le> v)) heat_map) \<noteq> 0"
proof -
  from assms have ne: "ps \<noteq> []"
    and px: "\<forall>(r, c) \<in> set ps. r < length heat_map \<and> c < length (heat_map ! r) \<and> thr \<le> heat_map ! r ! c"
    by (auto simp: labelled_def list_all_iff)
  from ne obtain r c where "(r, c) \<in> set ps" by (cases ps) auto
  with px have r: "r < length heat_map" and c: "c < length (heat_map ! r)" and v: "thr \<le> heat_map ! r ! c"
    by auto
  let ?m = "map (map (\<lambda>v. thr \<le> v)) heat_map"
  have "?m ! r ! c" using r c v by simp
  moreover have "?m ! r \<in> set ?m" using r by (metis length_map nth_mem)
  moreover have "?m ! r ! c \<in> set (?m ! r)" using r c by (metis length_map nth_map nth_mem)
  ultimately have "\<exists>b \<in> set (concat ?m). b"
    unfolding set_concat by blast
  then have "filter (\<lambda>b. b) (concat ?m) \<noteq> []"
    unfolding filter_empty_conv by blast
  then show ?thesis by (simp add: count_nonzero_def)
qed

lemma find_hotspots_nonzero:
  assumes "count_nonzero (map (map (\<lambda>v. thr \<le> v)) heat_map) \<noteq> 0"
  shows "find_hotspots_from_thr comps heat_map thr ambient maxC g min_frac max_frac max_boxes =
     take max_boxes (sort_pixels_desc
       (hotspot_loop heat_map ambient maxC g
          (min_area (fst (shape heat_map) * snd (shape heat_map)) min_frac)
          (max_area (fst (shape heat_map) * snd (shape heat_map)) min_frac max_frac) comps))"
  using assms by (simp add: find_hotspots_from_thr_def Let_def split: prod.splits)

lemma find_hotspots_subset:
  "set (find_hotspots_from_thr comps heat_map thr ambient maxC g min_frac max_frac max_boxes)
     \<subseteq> set (hotspot_loop heat_map ambient maxC g
          (min_area (fst (shape heat_map) * snd (shape heat_map)) min_frac)
          (max_area (fst (shape heat_map) * snd (shape heat_map)) min_frac max_frac) comps)"
proof (cases "count_nonzero (map (map (\<lambda>v. thr \<le> v)) heat_map) = 0")
  case True
  then show ?thesis by (simp add: find_hotspots_from_thr_def Let_def split: prod.splits)
next
  case False
  have "set (take max_boxes (sort_pixels_desc xs)) \<subseteq> set xs" for xs :: "hotspot list"
    using set_take_subset [of max_boxes "sort_pixels_desc xs"] by (simp add: sort_pixels_desc_def)
  then show ?thesis using find_hotspots_nonzero [OF False] by simp
qed

lemma default_area_bounds:
  "min_area total_px (1 / 10000) = max 1 (int (total_px div 10000)) \<and>
   max_area total_px (1 / 10000) (1 / 4) = max (max 1 (int (total_px div 10000))) (int (total_px div 4))"
proof -
  have a: "py_int (real total_px * (1 / 10000)) = int (total_px div 10000)"
    using floor_divide_of_nat_eq [of total_px 10000, where ?'a = real] by (simp add: py_int_def)
  have b: "py_int (real total_px * (1 / 4)) = int (total_px div 4)"
    using floor_divide_of_nat_eq [of total_px 4, where ?'a = real] by (simp add: py_int_def)
  show ?thesis
    unfolding min_area_def max_area_def a b by simp
qed

lemma shape_single_pixel_map: "0 < h \<Longrightarrow> 0 < w \<Longrightarrow> shape (single_pixel_map h w) = (h, w)"
  by (simp add: shape_def single_pixel_map_def)

lemma single_pixel_nonzero:
  "count_nonzero (map (map (\<lambda>v. 1 \<le> v)) (single_pixel_map h w)) \<noteq> 0"
  by (simp add: count_nonzero_def single_pixel_map_def)

lemma pixels_sort_pixels_desc:
  "map hs_pixels (sort_pixels_desc hs) = rev (sort (map hs_pixels hs))"
proof -
  let ?L = "map hs_pixels (sort_pixels_desc hs)"
  have "sorted_wrt (\<lambda>a b. b \<le> a) ?L"
    using sort_pixels_desc_sorted [of hs] by (simp add: sorted_wrt_map)
  then have "sorted (rev ?L)"
    by (simp add: sorted_wrt_rev)
  moreover have "mset (rev ?L) = mset (map hs_pixels hs)"
    using sort_pixels_desc_mset [of hs] by (metis mset_map mset_rev)
  ultimately have "sort (map hs_pixels hs) = rev ?L"
    by (intro properties_for_sort)
  then show ?thesis by simp
qed

lemma pixels_hotspot_loop:
  "1 \<le> lo \<Longrightarrow> map hs_pixels (hotspot_loop heat_map ambient maxC g lo hi comps)
     = filter (\<lambda>a. lo \<le> a \<and> a \<le> hi) (map (\<lambda>qs. int (length qs)) comps)"
  by (induction comps) (auto simp: hotspot_loop_filter make_hotspot_pixels)

text \<open>
  Claim C1, as amended. With \<open>lo = max 1 (trunc (min_frac * total))\<close> and
  \<open>hi = max lo (trunc (max_frac * total))\<close>: in every frame each retained hotspot has its
  area in \<open>[lo, hi]\<close>, so a component with an area below \<open>lo\<close> or above \<open>hi\<close> is discarded;
  for a labelling as OpenCV gives it, the areas of the retained hotspots are the
  \<open>max_boxes\<close> (20) largest areas of the components inside \<open>[lo, hi]\<close>, in descending order;
  hence a component with an area in \<open>[lo, hi]\<close>, the two bounds included, is retained
  whenever at most \<open>max_boxes\<close> components have their area there. For the default fractions
  the bounds are \<open>max 1 (total div 10000)\<close> and \<open>max lo (total div 4)\<close>: lemma
  \<open>default_area_bounds\<close>.
\<close>

theorem area_filter_band:
  assumes lo: "lo = min_area (fst (shape heat_map) * snd (shape heat_map)) min_frac"
    and hi: "hi = max_area (fst (shape heat_map) * snd (shape heat_map)) min_frac max_frac"
    and found: "found = find_hotspots_from_thr comps heat_map thr ambient maxC g min_frac max_frac max_boxes"
  shows "(\<forall>h \<in> set found. lo \<le> hs_pixels h \<and> hs_pixels h \<le> hi) \<and>
     (make_hotspot heat_map ambient maxC g ps \<in> set found
        \<longrightarrow> lo \<le> int (length ps) \<and> int (length ps) \<le> hi) \<and>
     (labelled heat_map thr comps \<longrightarrow>
        map hs_pixels found
          = take max_boxes (rev (sort (filter (\<lambda>a. lo \<le> a \<and> a \<le> hi)
              (map (\<lambda>qs. int (length qs)) comps)))) \<and>
        (ps \<in> set comps \<and> lo \<le> int (length ps) \<and> int (length ps) \<le> hi \<and>
         length (filter (\<lambda>qs. lo \<le> int (length qs) \<and> int (length qs) \<le> hi) comps) \<le> max_boxes
           \<longrightarrow> make_hotspot heat_map ambient maxC g ps \<in> set found))"
proof -
  let ?loop = "hotspot_loop heat_map ambient maxC g lo hi comps"
  have lo1: "1 \<le> lo" unfolding lo by (rule min_area_pos)
  have sub: "set found \<subseteq> set ?loop"
    unfolding found lo hi by (rule find_hotspots_subset)
  have px: "map hs_pixels ?loop = filter (\<lambda>a. lo \<le> a \<and> a \<le> hi) (map (\<lambda>qs. int (length qs)) comps)"
    using lo1 by (rule pixels_hotspot_loop)
  have band: "lo \<le> hs_pixels h \<and> hs_pixels h \<le> hi" if "h \<in> set found" for h
  proof -
    from that sub have "hs_pixels h \<in> set (map hs_pixels ?loop)" by auto
    then show ?thesis unfolding px by simp
  qed
  have A: "\<forall>h \<in> set found. lo \<le> hs_pixels h \<and> hs_pixels h \<le> hi"
    using band by blast
  have B: "make_hotspot heat_map ambient maxC g ps \<in> set found
      \<longrightarrow> lo \<le> int (length ps) \<and> int (length ps) \<le> hi"
    using band [of "make_hotspot heat_map ambient maxC g ps"] by (simp add: make_hotspot_pixels)
  have C: "map hs_pixels found
        = take max_boxes (rev (sort (filter (\<lambda>a. lo \<le> a \<and> a \<le> hi)
            (map (\<lambda>qs. int (length qs)) comps)))) \<and>
      (ps \<in> set comps \<and> lo \<le> int (length ps) \<and> int (length ps) \<le> hi \<and>
       length (filter (\<lambda>qs. lo \<le> int (length qs) \<and> int (length qs) \<le> hi) comps) \<le> max_boxes
         \<longrightarrow> make_hotspot heat_map ambient maxC g ps \<in> set found)"
    if lab: "labelled heat_map thr comps"
  proof -
    have res: "found = take max_boxes (sort_pixels_desc ?loop)"
    proof (cases comps)
      case Nil
      then show ?thesis
        by (simp add: found find_hotspots_from_thr_def sort_pixels_desc_def Let_def split: prod.splits)
    next
      case (Cons qs rest)
      then have "qs \<in> set comps" by simp
      from find_hotspots_nonzero [OF labelled_nonzero [OF lab this]]
      show ?thesis unfolding found lo hi by simp
    qed
    have C1: "map hs_pixels found
        = take max_boxes (rev (sort (filter (\<lambda>a. lo \<le> a \<and> a \<le> hi)
            (map (\<lambda>qs. int (length qs)) comps))))"
      unfolding res take_map [symmetric] pixels_sort_pixels_desc px ..
    have C2: "make_hotspot heat_map ambient maxC g ps \<in> set found"
      if mem: "ps \<in> set comps" and inb: "lo \<le> int (length ps) \<and> int (length ps) \<le> hi"
        and cap: "length (filter (\<lambda>qs. lo \<le> int (length qs) \<and> int (length qs) \<le> hi) comps) \<le> max_boxes"
    proof -
      have same: "(\<lambda>qs::pixel_pos list. lo \<le> int (length qs) \<and> int (length qs) \<le> hi \<and> qs \<noteq> [])
          = (\<lambda>qs. lo \<le> int (length qs) \<and> int (length qs) \<le> hi)"
        using lo1 by (auto simp: fun_eq_iff)
      have loop: "?loop = map (make_hotspot heat_map ambient maxC g)
          (filter (\<lambda>qs. lo \<le> int (length qs) \<and> int (length qs) \<le> hi) comps)"
        unfolding hotspot_loop_filter same ..
      have "length (sort_pixels_desc ?loop) \<le> max_boxes"
        using cap by (simp add: loop sort_pixels_desc_length)
      then have "set found = set ?loop"
        unfolding res by (simp add: sort_pixels_desc_def)
      with mem inb show ?thesis unfolding loop by auto
    qed
    from C1 C2 show ?thesis by blast
  qed
  from A B C show ?thesis by blast
qed

text \<open>
  The example map: 24 pixels, bounds 1 and 6. The run of 6 pixels has exactly the area
  \<open>0.25 * 24\<close> and is retained; the run of 7 pixels is discarded.
\<close>

theorem area_filter_band_witness:
  "labelled example_heat (1/2) example_comps \<and>
   min_area (fst (shape example_heat) * snd (shape example_heat)) (1/10000) = 1 \<and>
   max_area (fst (shape example_heat) * snd (shape example_heat)) (1/10000) (1/4) = 6 \<and>
   map hs_pixels (find_hotspots_from_thr example_comps example_heat (1/2) 22 120 2 (1/10000) (1/4) 20)
     = [6] \<and>
   make_hotspot example_heat 22 120 2 [(0, 0), (0, 1), (0, 2), (0, 3), (0, 4), (0, 5)]
     \<in> set (find_hotspots_from_thr example_comps example_heat (1/2) 22 120 2 (1/10000) (1/4) 20) \<and>
   make_hotspot example_heat 22 120 2 [(2, 0), (2, 1), (2, 2), (2, 3), (2, 4), (2, 5), (2, 6)]
     \<notin> set (find_hotspots_from_thr example_comps example_heat (1/2) 22 120 2 (1/10000) (1/4) 20)"
proof -
  have lab: "labelled example_heat (1/2) example_comps"
    by (simp add: labelled_def example_heat_def example_comps_def)
  have sh: "shape example_heat = (3, 8)"
    by (simp add: shape_def example_heat_def)
  have lo: "1 = min_area (fst (shape example_heat) * snd (shape example_heat)) (1/10000)"
    and hi: "6 = max_area (fst (shape example_heat) * snd (shape example_heat)) (1/10000) (1/4)"
    by (simp_all add: sh default_area_bounds)
  have areas: "map (\<lambda>qs. int (length qs)) example_comps = [6, 7]"
    and cap: "length (filter (\<lambda>qs. 1 \<le> int (length qs) \<and> int (length qs) \<le> 6) example_comps) \<le> 20"
    and m1: "[(0, 0), (0, 1), (0, 2), (0, 3), (0, 4), (0, 5)] \<in> set example_comps"
    by (simp_all add: example_comps_def)
  show ?thesis
    using area_filter_band [OF lo hi refl, of example_comps "1/2" 22 120 2 20
        "[(0, 0), (0, 1), (0, 2), (0, 3), (0, 4), (0, 5)]"]
      area_filter_band [OF lo hi refl, of example_comps "1/2" 22 120 2 20
        "[(2, 0), (2, 1), (2, 2), (2, 3), (2, 4), (2, 5), (2, 6)]"]
      lab lo hi areas cap m1
    by auto
qed

lemma single_pixel_result:
  assumes "0 < h" and "0 < w" and "min_area (h * w) min_frac \<le> 1"
  shows "map hs_pixels
      (find_hotspots_from_thr [[(0, 0)]] (single_pixel_map h w) 1 ambient maxC g min_frac max_frac (Suc k))
     = [1]"
proof -
  have "1 \<le> max_area (h * w) min_frac max_frac"
    using min_area_pos [of "h * w" min_frac] min_le_max_area [of "h * w" min_frac max_frac]
    by linarith
  with assms show ?thesis
    by (simp add: find_hotspots_nonzero [OF single_pixel_nonzero] shape_single_pixel_map
        hotspot_loop_filter sort_pixels_desc_def make_hotspot_pixels)
qed

text \<open>
  The claim as stated fails in both directions. In a frame of 100 by 150 pixels the lower
  bound of the band is \<open>1.5\<close> pixels; a component of one pixel lies strictly below it and is
  retained, because the bound is truncated to 1. In a row of 41 pixels with 21 components
  of one pixel, all inside the band, only 20 are retained.
\<close>

theorem area_filter_not_the_fraction_band:
  "map hs_pixels (find_hotspots_from_thr [[(0, 0)]] (single_pixel_map 100 150) 1 22 120 1.2 (1/10000) (1/4) 20)
     = [1] \<and>
   (1 :: real) < 1/10000 * real (100 * 150) \<and>
   length striped_comps = 21 \<and>
   list_all (\<lambda>ps. 1/10000 * real (1 * 41) \<le> real (length ps) \<and> real (length ps) \<le> 1/4 * real (1 * 41))
     striped_comps \<and>
   labelled striped_map 1 striped_comps \<and>
   length (find_hotspots_from_thr striped_comps striped_map 1 22 120 1.2 (1/10000) (1/4) 20) = 20"
proof -
  have a: "map hs_pixels (find_hotspots_from_thr [[(0, 0)]] (single_pixel_map 100 150) 1 22 120 1.2 (1/10000) (1/4) 20) = [1]"
    using single_pixel_result [of 100 150 "1/10000" 22 120 "1.2" "1/4" 19]
    by (simp add: default_area_bounds)
  have c: "length striped_comps = 21"
    by (simp add: striped_comps_def)
  have d: "list_all (\<lambda>ps. 1/10000 * real (1 * 41) \<le> real (length ps) \<and> real (length ps) \<le> 1/4 * real (1 * 41)) striped_comps"
    by (simp add: striped_comps_def list_all_iff)
  have sm: "striped_map = [[1,0,1,0,1,0,1,0,1,0,1,0,1,0,1,0,1,0,1,0,1,0,1,0,1,0,1,0,1,0,1,0,1,0,1,0,1,0,1,0,1]]"
    by (simp add: striped_map_def numeral_eq_Suc)
  have e: "labelled striped_map 1 striped_comps"
    unfolding sm by (simp add: labelled_def striped_comps_def upt_conv_Cons)
  have sh: "shape striped_map = (1, 41)"
    unfolding sm by (simp add: shape_def)
  have nz: "count_nonzero (map (map (\<lambda>v. 1 \<le> v)) striped_map) \<noteq> 0"
    unfolding sm by (simp add: count_nonzero_def)
  have pass: "filter (\<lambda>ps. min_area 41 (1/10000) \<le> int (length ps) \<and>
       int (length ps) \<le> max_area 41 (1/10000) (1/4) \<and> ps \<noteq> []) striped_comps = striped_comps"
    by (simp add: default_area_bounds striped_comps_def filter_map o_def)
  have f: "length (find_hotspots_from_thr striped_comps striped_map 1 22 120 1.2 (1/10000) (1/4) 20) = 20"
    by (simp add: find_hotspots_nonzero [OF nz] sh hotspot_loop_filter pass sort_pixels_desc_def c)
  show ?thesis
    using a c d e f by simp
qed

section \<open>Hotspot records\<close>

text \<open>The heat score of a pixel is clipped, so it lies in \<open>[0, 1]\<close>.\<close>

lemma heat_score_unit: "0 \<le> heat_score px \<and> heat_score px \<le> 1"
  by (simp add: heat_score_def np_clip_def Let_def split: prod.splits)







end
